theory Spec2Isabelle
  imports Main "HOL-Library.Word" "HOL-Library.Signed_Division"
begin

section \<open>Machine integers and run-time panics\<close>

text \<open>
  Go's \<open>int64\<close> is a 64-bit two's-complement integer: \<open>+\<close> and \<open>-\<close> wrap around,
  comparison is signed, \<open>/\<close> and \<open>%\<close> truncate towards zero and panic when the divisor
  is zero.
\<close>

type_synonym int64 = "64 word"

datatype error = DivideByZero | NilDereference

definition int64_rem :: "int64 \<Rightarrow> int64 \<Rightarrow> error + int64" where
  "int64_rem a b =
     (if b = 0 then Inl DivideByZero else Inr (word_of_int (sint a smod sint b)))"

definition int64_quo :: "int64 \<Rightarrow> int64 \<Rightarrow> error + int64" where
  "int64_quo a b =
     (if b = 0 then Inl DivideByZero else Inr (word_of_int (sint a sdiv sint b)))"

section \<open>The part of go/types the program uses\<close>

text \<open>
  A \<open>*types.Package\<close> is a pointer: \<open>None\<close> is nil, \<open>Some a\<close> the address of a
  package object in the store. Pointer comparison is comparison of addresses.
\<close>

type_synonym pkg_ptr = "nat option"

record Package =
  Path :: string
  Name :: string

type_synonym pkg_store = "nat \<Rightarrow> Package"

text \<open>
  \<open>types.Type\<close>: \<open>Named n p\<close> is a defined type whose type name \<open>Obj()\<close> has name \<open>n\<close>
  and package \<open>p\<close> (nil for the types of the universe scope, such as \<open>error\<close>);
  the other constructors are the basic and the composite types.
\<close>

datatype Type =
    Basic string
  | Named string pkg_ptr
  | Pointer Type
  | Slice Type
  | Array int64 Type
  | Map Type Type
  | Chan Type
  | Struct "(string \<times> Type) list"
  | Signature
  | Interface

text \<open>A struct field (\<open>*types.Var\<close>) with its \<open>Name()\<close> and \<open>Type()\<close>.\<close>

type_synonym Var = "string \<times> Type"

abbreviation var_Name :: "Var \<Rightarrow> string" where
  "var_Name \<equiv> fst"

abbreviation var_Type :: "Var \<Rightarrow> Type" where
  "var_Type \<equiv> snd"

text \<open>The interface \<open>types.Sizes\<close>.\<close>

record Sizes =
  Sizeof :: "Type \<Rightarrow> int64"
  Alignof :: "Type \<Rightarrow> int64"

section \<open>The alignment table\<close>

definition alignments :: "int64 \<rightharpoonup> string" where
  "alignments = [1 \<mapsto> ''uint8'', 2 \<mapsto> ''uint16'', 4 \<mapsto> ''uint32'', 8 \<mapsto> ''uint64'']"

section \<open>UnionSize\<close>

text \<open>The loop over the fields, with the two running maxima.\<close>

fun UnionSize_scan :: "Sizes \<Rightarrow> Var list \<Rightarrow> int64 \<Rightarrow> int64 \<Rightarrow> int64 \<times> int64" where
  "UnionSize_scan lookup [] maxsz maxalign = (maxsz, maxalign)"
| "UnionSize_scan lookup (f # fs) maxsz maxalign =
     (let sz = Sizeof lookup (var_Type f);
          align = Alignof lookup (var_Type f)
      in UnionSize_scan lookup fs
           (if maxsz <s sz then sz else maxsz)
           (if maxalign <s align then align else maxalign))"

definition UnionSize :: "Var list \<Rightarrow> Sizes \<Rightarrow> error + (int64 \<times> int64)" where
  "UnionSize s lookup =
     (case UnionSize_scan lookup s 0 0 of (maxsz, maxalign) \<Rightarrow>
        (case int64_rem maxsz maxalign of
           Inl e \<Rightarrow> Inl e
         | Inr r \<Rightarrow>
             if r \<noteq> 0 then Inr (maxsz - r + maxalign, maxalign)
             else Inr (maxsz, maxalign)))"

text \<open>
  The same requirement in the words of the layout rule, on unbounded integers: the
  largest size rounded up to the next multiple of the largest alignment.
\<close>

definition spec_round_up :: "int \<Rightarrow> int \<Rightarrow> int" where
  "spec_round_up maxSize maxAlign =
     (if maxSize mod maxAlign \<noteq> 0 then maxSize - (maxSize mod maxAlign) + maxAlign
      else maxSize)"

definition max_sizeof :: "Sizes \<Rightarrow> Var list \<Rightarrow> int" where
  "max_sizeof lookup s = Max (set (map (\<lambda>f. sint (Sizeof lookup (var_Type f))) s))"

definition max_alignof :: "Sizes \<Rightarrow> Var list \<Rightarrow> int" where
  "max_alignof lookup s = Max (set (map (\<lambda>f. sint (Alignof lookup (var_Type f))) s))"

definition positive_alignments :: "Sizes \<Rightarrow> Var list \<Rightarrow> bool" where
  "positive_alignments lookup s = list_all (\<lambda>f. 0 <s Alignof lookup (var_Type f)) s"

section \<open>UnionFields\<close>

record Field =
  name :: string
  typ' :: Type

definition UnionFields :: "Var list \<Rightarrow> Field list" where
  "UnionFields s = map (\<lambda>f. \<lparr>name = var_Name f, typ' = var_Type f\<rparr>) s"

section \<open>GetImports\<close>

definition quoted :: "string \<Rightarrow> string" where
  "quoted p = [CHR 0x22] @ p @ [CHR 0x22]"

text \<open>
  The loop appends to \<open>imports\<close>. The type assertion \<^verbatim>\<open>f.typ.(*types.Named)\<close> succeeds
  for \<open>Named\<close> only; \<open>Path()\<close> on a nil package dereferences nil.
\<close>

fun GetImports_loop ::
  "pkg_store \<Rightarrow> Field list \<Rightarrow> pkg_ptr \<Rightarrow> string list \<Rightarrow> error + string list" where
  "GetImports_loop st [] pkg imports = Inr imports"
| "GetImports_loop st (f # fs) pkg imports =
     (case typ' f of
        Named n p \<Rightarrow>
          if pkg \<noteq> p then
            (case p of
               None \<Rightarrow> Inl NilDereference
             | Some a \<Rightarrow> GetImports_loop st fs pkg (imports @ [quoted (Path (st a))]))
          else GetImports_loop st fs pkg imports
      | _ \<Rightarrow> GetImports_loop st fs pkg imports)"

definition GetImports :: "pkg_store \<Rightarrow> Field list \<Rightarrow> pkg_ptr \<Rightarrow> error + string list" where
  "GetImports st fs pkg = GetImports_loop st fs pkg []"

text \<open>The fields that pass both tests of the loop, and the composite types.\<close>

fun is_external :: "pkg_ptr \<Rightarrow> Field \<Rightarrow> bool" where
  "is_external pkg f = (case typ' f of Named n p \<Rightarrow> pkg \<noteq> p | _ \<Rightarrow> False)"

fun owner_path :: "pkg_store \<Rightarrow> Field \<Rightarrow> string" where
  "owner_path st f = (case typ' f of Named n (Some a) \<Rightarrow> Path (st a) | _ \<Rightarrow> [])"

fun has_owner :: "Field \<Rightarrow> bool" where
  "has_owner f = (case typ' f of Named n None \<Rightarrow> False | _ \<Rightarrow> True)"

fun is_composite :: "Type \<Rightarrow> bool" where
  "is_composite (Pointer t) = True"
| "is_composite (Slice t) = True"
| "is_composite (Array n t) = True"
| "is_composite (Map k v) = True"
| "is_composite (Chan t) = True"
| "is_composite t = False"

section \<open>StringUnion\<close>

text \<open>
  \<open>qual\<close>: types.TypeString applies the qualifier to the non-nil package of a named
  type, so its argument is the address of a package.
\<close>

type_synonym Qualifier = "(nat \<Rightarrow> string) option"

definition qual :: "pkg_store \<Rightarrow> pkg_ptr \<Rightarrow> Qualifier" where
  "qual st pkg =
     (case pkg of
        None \<Rightarrow> None
      | Some a \<Rightarrow> Some (\<lambda>other. if pkg = Some other then [] else Name (st other)))"

text \<open>
  The format strings \<open>header\<close>, \<open>packageTemplate\<close>, \<open>importTemplate\<close>,
  \<open>structTemplate\<close> and \<open>fieldTemplate\<close> are constants of the program; each is
  taken here as the function that \<open>fmt.Sprintf\<close> computes from it.
\<close>

record Templates =
  header :: string
  packageTemplate :: "string \<Rightarrow> string"
  importTemplate :: "string \<Rightarrow> string"
  structTemplate :: "string \<Rightarrow> int64 \<Rightarrow> string \<Rightarrow> string"
  fieldTemplate :: "string \<Rightarrow> string \<Rightarrow> string \<Rightarrow> string"

text \<open>
  The first two statements of StringUnion: the element type looked up in the table
  (the empty string for a missing key) and \<open>size /= align\<close>.
\<close>

definition storage_shape :: "int64 \<Rightarrow> int64 \<Rightarrow> error + (int64 \<times> string)" where
  "storage_shape sz align =
     (let ty = (case alignments align of None \<Rightarrow> [] | Some t \<Rightarrow> t) in
      case int64_quo sz align of
        Inl e \<Rightarrow> Inl e
      | Inr n \<Rightarrow> Inr (n, ty))"

definition StringUnion ::
  "Templates \<Rightarrow> (Type \<Rightarrow> Qualifier \<Rightarrow> string) \<Rightarrow> pkg_store \<Rightarrow>
   string \<Rightarrow> int64 \<Rightarrow> int64 \<Rightarrow> Field list \<Rightarrow> pkg_ptr \<Rightarrow> error + string" where
  "StringUnion tpl TypeString st nm sz align fs pkg =
     (case storage_shape sz align of
        Inl e \<Rightarrow> Inl e
      | Inr (n, ty) \<Rightarrow>
          Inr (fold (\<lambda>f s. s @ fieldTemplate tpl nm (name f) (TypeString (typ' f) (qual st pkg)))
                 fs (structTemplate tpl nm n ty)))"

section \<open>The world around main\<close>

text \<open>
  What \<open>packages.Load\<close> returns for a package: its errors, the values of
  \<open>TypesInfo.Defs\<close> in the order the \<open>range\<close> loop meets them (nil for an identifier
  that denotes no object), its \<open>*types.Package\<close> and its \<open>types.Sizes\<close>.
  An object is seen through \<open>Name()\<close> and \<open>Type().Underlying()\<close>.
\<close>

record Object =
  obj_Name :: string
  obj_Underlying :: Type

record LoadedPackage =
  Errors :: "string list"
  Defs :: "Object option list"
  Types :: pkg_ptr
  TypesSizes :: Sizes

text \<open>
  The command line after \<open>flag.Parse\<close>: each option is present or absent, and
  \<open>args\<close> are the remaining arguments.
\<close>

record CmdLine =
  opt_pkg :: "string option"
  opt_otype :: "string option"
  opt_output :: "string option"
  args :: "string list"

text \<open>
  The library calls whose results main depends on: the package loader, the formatter
  (\<open>Inl\<close> is its error), the error of a file write (if any), the text of
  \<open>flag.PrintDefaults\<close>, \<open>types.TypeString\<close> and the store of package objects.
\<close>

record Env =
  templates :: Templates
  TypeString :: "Type \<Rightarrow> Qualifier \<Rightarrow> string"
  store :: pkg_store
  Load :: "string \<Rightarrow> string + LoadedPackage list"
  format_Source :: "string \<Rightarrow> string + string"
  WriteFile_error :: "string \<Rightarrow> string option"
  PrintDefaults :: string

text \<open>What a run leaves behind: the two output streams and the files written.\<close>

record World =
  stdout :: string
  stderr :: string
  files :: "string \<rightharpoonup> string"

text \<open>A run ends with \<open>os.Exit\<close>, by returning from main (exit code 0) or in a panic.\<close>

datatype status = Exit int | Panic error

fun exit_code :: "status \<Rightarrow> int" where
  "exit_code (Exit n) = n"
| "exit_code (Panic e) = 2"

definition nl :: string where
  "nl = [CHR 0x0A]"

definition tab :: string where
  "tab = [CHR 0x09]"

definition Print :: "string \<Rightarrow> World \<Rightarrow> World" where
  "Print s w = w\<lparr>stdout := stdout w @ s\<rparr>"

definition Eprint :: "string \<Rightarrow> World \<Rightarrow> World" where
  "Eprint s w = w\<lparr>stderr := stderr w @ s\<rparr>"

definition ioutil_WriteFile :: "Env \<Rightarrow> string \<Rightarrow> string \<Rightarrow> World \<Rightarrow> World \<times> string option" where
  "ioutil_WriteFile env path data w =
     (case WriteFile_error env path of
        None \<Rightarrow> (w\<lparr>files := (files w)(path \<mapsto> data)\<rparr>, None)
      | Some err \<Rightarrow> (w, Some err))"

text \<open>The verb \<open>%d\<close> of \<open>fmt\<close>.\<close>

fun digits :: "nat \<Rightarrow> string" where
  "digits n =
     (if n < 10 then [''0123456789'' ! n]
      else digits (n div 10) @ [''0123456789'' ! (n mod 10)])"

definition show_int :: "int \<Rightarrow> string" where
  "show_int i = (if i < 0 then CHR ''-'' # digits (nat (- i)) else digits (nat i))"

fun Join :: "string list \<Rightarrow> string \<Rightarrow> string" where
  "Join [] sep = []"
| "Join [x] sep = x"
| "Join (x # xs) sep = x @ sep @ Join xs sep"

definition flag_String :: "string option \<Rightarrow> string \<Rightarrow> string" where
  "flag_String given dflt = (case given of None \<Rightarrow> dflt | Some v \<Rightarrow> v)"

definition Usage :: "Env \<Rightarrow> World \<Rightarrow> World" where
  "Usage env w =
     Eprint (PrintDefaults env)
       (Print (''Usage of unionize:'' @ nl
               @ tab @ ''unionize [flags] T [directory]'' @ nl
               @ tab @ ''unionize [flags] T files...'' @ nl
               @ ''For more information, see:'' @ nl
               @ tab @ ''https://github.com/zyedidia/unionize'' @ nl
               @ ''Flags:'' @ nl) w)"

definition PrintErrors :: "LoadedPackage list \<Rightarrow> World \<Rightarrow> World \<times> nat" where
  "PrintErrors pkgs w =
     (let errs = concat (map Errors pkgs)
      in (Eprint (concat (map (\<lambda>e. e @ nl) errs)) w, length errs))"

section \<open>FindUnion\<close>

fun FindUnion_defs :: "Object option list \<Rightarrow> string \<Rightarrow> Var list option" where
  "FindUnion_defs [] nm = None"
| "FindUnion_defs (d # ds) nm =
     (case d of
        None \<Rightarrow> FindUnion_defs ds nm
      | Some ob \<Rightarrow>
          if obj_Name ob = nm then
            (case obj_Underlying ob of
               Struct s \<Rightarrow> Some s
             | _ \<Rightarrow> FindUnion_defs ds nm)
          else FindUnion_defs ds nm)"

definition FindUnion :: "LoadedPackage \<Rightarrow> string \<Rightarrow> Var list option" where
  "FindUnion pkg nm = FindUnion_defs (Defs pkg) nm"

section \<open>main\<close>

text \<open>
  main, in three parts. \<open>find_template\<close>: from the argument check to the lookup of
  the template struct. \<open>check_alignment\<close>: the test of the computed alignment against
  the table. \<open>generate\<close>: the flags, \<open>find_template\<close>, and the text written to the
  buffer. \<open>emit\<close>: formatting and output. An early \<open>os.Exit\<close> or a panic is \<open>Inl\<close>.
\<close>

definition find_template ::
  "Env \<Rightarrow> string list \<Rightarrow> World \<Rightarrow> (World \<times> status) + (World \<times> LoadedPackage \<times> Var list)" where
  "find_template env as w =
     (if length as \<noteq> 2 then
        Inl (Usage env (Eprint (''Invalid number of arguments: need union and package.'' @ nl) w),
             Exit 1)
      else
        case Load env (as ! 1) of
          Inl err \<Rightarrow> Inl (Eprint (''load: '' @ err @ nl) w, Exit 1)
        | Inr pkgs \<Rightarrow>
            (case PrintErrors pkgs w of (w1, n) \<Rightarrow>
               if n > 0 then Inl (w1, Exit 1)
               else if length pkgs \<le> 0 then
                 Inl (Eprint (''Error: no package found'' @ nl) w1, Exit 1)
               else
                 (case FindUnion (pkgs ! 0) (as ! 0) of
                    None \<Rightarrow>
                      Inl (Eprint (''Error: could not find struct to unionize'' @ nl) w1, Exit 1)
                  | Some strct \<Rightarrow> Inr (w1, pkgs ! 0, strct))))"

definition check_alignment :: "int64 \<Rightarrow> World \<Rightarrow> World \<times> int64" where
  "check_alignment align w =
     (if alignments align = None then
        (Print (''Warning: alignment of '' @ show_int (sint align)
                @ '' cannot be satisfied with a primitive type, using alignment of ''
                @ show_int 8 @ '' instead'' @ nl) w,
         8)
      else (w, align))"

definition generate ::
  "Env \<Rightarrow> CmdLine \<Rightarrow> World \<Rightarrow> (World \<times> status) + (World \<times> string \<times> string)" where
  "generate env c w =
     (let flagPkg = flag_String (opt_pkg c) ''main'';
          flagUnion = flag_String (opt_otype c) [];
          flagFile = flag_String (opt_output c) []
      in case find_template env (args c) w of
           Inl stop \<Rightarrow> Inl stop
         | Inr (w1, pkg, strct) \<Rightarrow>
             (let unionName = (if flagUnion \<noteq> [] then flagUnion else args c ! 0 @ ''Union'')
              in case UnionSize strct (TypesSizes pkg) of
                   Inl e \<Rightarrow> Inl (w1, Panic e)
                 | Inr (sz, align) \<Rightarrow>
                     (case check_alignment align w1 of (w2, align') \<Rightarrow>
                        (case GetImports (store env) (UnionFields strct) (Types pkg) of
                           Inl e \<Rightarrow> Inl (w2, Panic e)
                         | Inr imports \<Rightarrow>
                             (case StringUnion (templates env) (TypeString env) (store env)
                                     unionName sz align' (UnionFields strct) (Types pkg) of
                                Inl e \<Rightarrow> Inl (w2, Panic e)
                              | Inr su \<Rightarrow>
                                  Inr (w2, flagFile,
                                       header (templates env)
                                       @ packageTemplate (templates env) flagPkg
                                       @ importTemplate (templates env) (Join imports nl)
                                       @ su))))))"

definition emit :: "Env \<Rightarrow> string \<Rightarrow> string \<Rightarrow> World \<Rightarrow> World \<times> status" where
  "emit env flagFile buf w =
     (case format_Source env buf of
        Inl err \<Rightarrow>
          (Eprint (''format: '' @ err @ nl)
             (Eprint (''Error with union generation:'' @ nl) (Print buf w)),
           Exit 1)
      | Inr output \<Rightarrow>
          if flagFile \<noteq> [] then (fst (ioutil_WriteFile env flagFile output w), Exit 0)
          else (Print output w, Exit 0))"

definition main :: "Env \<Rightarrow> CmdLine \<Rightarrow> World \<Rightarrow> World \<times> status" where
  "main env c w =
     (case generate env c w of
        Inl stop \<Rightarrow> stop
      | Inr (w', flagFile, buf) \<Rightarrow> emit env flagFile buf w')"

section \<open>The generated accessors\<close>

text \<open>
  Modelled from the spec: the text of \<open>structTemplate\<close> and \<open>fieldTemplate\<close> (the
  generated storage declaration and accessors) is not among the sources. The spec
  gives the storage as \<open>elementCount\<close> elements of the primitive type of the chosen
  alignment, and per field a read that reinterprets the start of the storage as the
  field's type and a write that stores a value of the field's type through the same
  reinterpretation. The storage is a list of bytes; values are laid out little-endian.
\<close>

type_synonym storage = "8 word list"

definition new_storage :: "int64 \<Rightarrow> int64 \<Rightarrow> storage" where
  "new_storage elementCount align =
     map (\<lambda>i. 0) [0..<nat (sint elementCount) * nat (sint align)]"

definition le_bytes :: "nat \<Rightarrow> nat \<Rightarrow> 8 word list" where
  "le_bytes n v = map (\<lambda>i. of_nat (v div 256 ^ i mod 256)) [0..<n]"

fun from_le :: "8 word list \<Rightarrow> nat" where
  "from_le [] = 0"
| "from_le (b # bs) = unat b + 256 * from_le bs"

definition field_put :: "'a::len word \<Rightarrow> storage \<Rightarrow> storage" where
  "field_put v u =
     le_bytes (LENGTH('a) div 8) (unat v) @ drop (LENGTH('a) div 8) u"

definition field_get :: "storage \<Rightarrow> 'a::len word" where
  "field_get u = of_nat (from_le (take (LENGTH('a) div 8) u))"

section \<open>Sample inputs\<close>

text \<open>The template of the example directory, with the sizes of its two field types.\<close>

definition example_template :: "Var list" where
  "example_template = [(''i1'', Basic ''uint32''), (''i2'', Basic ''uint16'')]"

definition example_sizes :: Sizes where
  "example_sizes =
     \<lparr>Sizeof = (\<lambda>t. if t = Basic ''uint16'' then 2 else if t = Basic ''uint32'' then 4 else 8),
      Alignof = (\<lambda>t. if t = Basic ''uint16'' then 2 else if t = Basic ''uint32'' then 4 else 8)\<rparr>"

text \<open>A byte array of 2^63 - 1 elements beside a 2-byte integer.\<close>

definition overflow_template :: "Var list" where
  "overflow_template =
     [(''a'', Array 0x7FFFFFFFFFFFFFFF (Basic ''uint8'')), (''b'', Basic ''uint16'')]"

definition overflow_sizes :: Sizes where
  "overflow_sizes =
     \<lparr>Sizeof = (\<lambda>t. if t = Basic ''uint16'' then 2 else 0x7FFFFFFFFFFFFFFF),
      Alignof = (\<lambda>t. if t = Basic ''uint16'' then 2 else 1)\<rparr>"



definition wide_sizes :: Sizes where
  "wide_sizes = \<lparr>Sizeof = (\<lambda>t. 16), Alignof = (\<lambda>t. 16)\<rparr>"

text \<open>Package objects: address 0 is the package of the template, 1 and 2 are others.\<close>

definition example_store :: pkg_store where
  "example_store =
     (\<lambda>a. if a = 0 then \<lparr>Path = ''example'', Name = ''main''\<rparr>
          else if a = 1 then \<lparr>Path = ''pkg/x'', Name = ''x''\<rparr>
          else \<lparr>Path = ''pkg/y'', Name = ''y''\<rparr>)"

definition two_from_x :: "Field list" where
  "two_from_x =
     [\<lparr>name = ''a'', typ' = Named ''A'' (Some 1)\<rparr>, \<lparr>name = ''b'', typ' = Named ''B'' (Some 1)\<rparr>]"

definition mixed_fields :: "Field list" where
  "mixed_fields =
     [\<lparr>name = ''l'', typ' = Named ''Local'' (Some 0)\<rparr>,
      \<lparr>name = ''p'', typ' = Pointer (Named ''A'' (Some 1))\<rparr>,
      \<lparr>name = ''a'', typ' = Named ''A'' (Some 1)\<rparr>,
      \<lparr>name = ''n'', typ' = Basic ''int''\<rparr>,
      \<lparr>name = ''b'', typ' = Named ''B'' (Some 1)\<rparr>]"

text \<open>A sample instance of the format strings, the loader and the formatter.\<close>

definition example_templates :: Templates where
  "example_templates =
     \<lparr>header = ''// generated'' @ nl,
      packageTemplate = (\<lambda>p. ''package '' @ p @ nl),
      importTemplate = (\<lambda>i. ''import ('' @ i @ '')'' @ nl),
      structTemplate = (\<lambda>n c t. ''type '' @ n @ '' ['' @ show_int (sint c) @ '']'' @ t @ nl),
      fieldTemplate = (\<lambda>n f t. ''func (u *'' @ n @ '') '' @ f @ ''() '' @ t @ nl)\<rparr>"

definition example_package :: LoadedPackage where
  "example_package =
     \<lparr>Errors = [],
      Defs = [None, Some \<lparr>obj_Name = ''Template'', obj_Underlying = Struct example_template\<rparr>],
      Types = Some 0,
      TypesSizes = example_sizes\<rparr>"

definition example_env :: Env where
  "example_env =
     \<lparr>templates = example_templates,
      TypeString = (\<lambda>t q. case t of Basic n \<Rightarrow> n | _ \<Rightarrow> ''T''),
      store = example_store,
      Load = (\<lambda>src. Inr [example_package]),
      format_Source = (\<lambda>src. Inr src),
      WriteFile_error = (\<lambda>path. None),
      PrintDefaults = []\<rparr>"

definition example_cmdline :: CmdLine where
  "example_cmdline =
     \<lparr>opt_pkg = None, opt_otype = None, opt_output = None, args = [''Template'', ''.'']\<rparr>"

definition empty_world :: World where
  "empty_world = \<lparr>stdout = [], stderr = [], files = Map.empty\<rparr>"

text \<open>The same run with a formatter that rejects its input.\<close>

definition rejecting_env :: Env where
  "rejecting_env = example_env\<lparr>format_Source := (\<lambda>src. Inl ''1:1: expected declaration'')\<rparr>"

text \<open>The same run with an output file that cannot be written.\<close>

definition readonly_env :: Env where
  "readonly_env = example_env\<lparr>WriteFile_error := (\<lambda>path. Some ''permission denied'')\<rparr>"

definition output_cmdline :: CmdLine where
  "output_cmdline = example_cmdline\<lparr>opt_output := Some ''template_union.go''\<rparr>"

text \<open>The same run under sizes that give every type the alignment 16.\<close>

definition wide_env :: Env where
  "wide_env = example_env\<lparr>Load := (\<lambda>src. Inr [example_package\<lparr>TypesSizes := wide_sizes\<rparr>])\<rparr>"

text \<open>The texts these runs produce.\<close>

definition warning_16 :: string where
  "warning_16 =
     ''Warning: alignment of 16 cannot be satisfied with a primitive type, using alignment of 8 instead''
     @ nl"

definition example_text :: string where
  "example_text =
     ''// generated'' @ nl @ ''package main'' @ nl @ ''import ()'' @ nl
     @ ''type TemplateUnion [1]uint32'' @ nl
     @ ''func (u *TemplateUnion) i1() uint32'' @ nl
     @ ''func (u *TemplateUnion) i2() uint16'' @ nl"

definition wide_text :: string where
  "wide_text =
     ''// generated'' @ nl @ ''package main'' @ nl @ ''import ()'' @ nl
     @ ''type TemplateUnion [2]uint64'' @ nl
     @ ''func (u *TemplateUnion) i1() uint32'' @ nl
     @ ''func (u *TemplateUnion) i2() uint16'' @ nl"

section \<open>Evaluation\<close>

lemmas run_defs =
  main_def generate_def find_template_def emit_def check_alignment_def flag_String_def
  PrintErrors_def FindUnion_def UnionSize_def int64_rem_def int64_quo_def word_sless_alt
  smod_int_alt_def signed_divide_int_def alignments_def GetImports_def UnionFields_def
  StringUnion_def storage_shape_def ioutil_WriteFile_def Eprint_def Print_def Usage_def
  show_int_def quoted_def

lemmas sample_defs =
  example_env_def example_cmdline_def empty_world_def example_package_def
  example_template_def example_sizes_def example_templates_def example_store_def

section \<open>Arithmetic of the layout\<close>

lemma scan_fold:
  "UnionSize_scan l fs a b = (x, y) \<Longrightarrow>
     sint x = fold max (map (\<lambda>f. sint (Sizeof l (var_Type f))) fs) (sint a) \<and>
     sint y = fold max (map (\<lambda>f. sint (Alignof l (var_Type f))) fs) (sint b)"
proof (induction fs arbitrary: a b)
  case Nil
  then show ?case by simp
next
  case (Cons f fs)
  then show ?case
    by (simp add: Let_def word_sless_alt max_def split: if_splits)
qed

lemma fold_max_Max:
  "xs \<noteq> [] \<Longrightarrow> fold max xs (a::int) = max a (Max (set xs))"
  by (metis Max.set_eq_fold Max_insert List.finite_set list.simps(15) set_empty)

lemma int64_sint_of_int:
  "- (2 ^ 63) \<le> k \<Longrightarrow> k < 2 ^ 63 \<Longrightarrow> sint (word_of_int k :: int64) = k"
  by (simp add: sint_sbintrunc' signed_take_bit_int_eq_self)

lemma smod_nonneg: "0 \<le> (m::int) \<Longrightarrow> 0 < a \<Longrightarrow> m smod a = m mod a"
  by (cases "m = 0") (simp_all add: smod_int_alt_def)

lemma sint_bounds64: "- (2 ^ 63) \<le> sint (w::int64)" "sint (w::int64) < 2 ^ 63"
  using sint_range_size [of w] by (simp_all add: word_size)


lemma max_alignof_pos:
  assumes "s \<noteq> []" and "positive_alignments lookup s"
  shows "0 < max_alignof lookup s"
proof -
  obtain f fs where s: "s = f # fs" using assms(1) by (cases s) auto
  have "0 < sint (Alignof lookup (var_Type f))"
    using assms(2) by (simp add: s positive_alignments_def word_sless_alt)
  moreover have "sint (Alignof lookup (var_Type f)) \<le> max_alignof lookup s"
    unfolding max_alignof_def by (rule Max_ge) (simp_all add: s)
  ultimately show ?thesis by linarith
qed

lemma round_up_props:
  assumes "0 \<le> (m::int)" and "0 < a"
  shows "m \<le> spec_round_up m a" and "a dvd spec_round_up m a"
proof -
  have "m mod a < a" using assms by simp
  then show "m \<le> spec_round_up m a" by (simp add: spec_round_up_def)
  have "a dvd m - m mod a" by simp
  then show "a dvd spec_round_up m a"
    by (auto simp: spec_round_up_def mod_eq_0_iff_dvd)
qed

lemma fold_max_ge: "(a::int) \<le> fold max xs a"
proof (induction xs arbitrary: a)
  case Nil
  show ?case by simp
next
  case (Cons x xs)
  have "a \<le> max x a" by simp
  also have "\<dots> \<le> fold max xs (max x a)" by (rule Cons.IH)
  finally show ?case by simp
qed

lemma int64_wrap_dvd:
  assumes "d dvd k" and "d dvd (2 ^ 64 :: int)"
  shows "d dvd sint (word_of_int k :: int64)"
proof -
  have "take_bit 64 (signed_take_bit 63 k) = take_bit 64 k"
    by (rule take_bit_signed_take_bit) simp
  then have "signed_take_bit 63 k mod 2 ^ 64 = k mod 2 ^ 64"
    by (simp add: take_bit_eq_mod)
  moreover have "d dvd k mod 2 ^ 64" using assms by (rule dvd_mod)
  ultimately have "d dvd signed_take_bit 63 k mod 2 ^ 64" by simp
  then have "d dvd signed_take_bit 63 k" using assms(2) by (rule dvd_mod_imp_dvd)
  then show ?thesis by (simp add: sint_sbintrunc')
qed

lemma UnionSize_dvd:
  assumes res: "UnionSize s lookup = Inr (sz, align)"
    and d1: "d dvd sint align"
    and d2: "d dvd (2 ^ 64 :: int)"
  shows "d dvd sint sz"
proof -
  obtain x y where scan: "UnionSize_scan lookup s 0 0 = (x, y)"
    by (cases "UnionSize_scan lookup s 0 0")
  define M where "M = sint x"
  define A where "A = sint y"
  have M0: "0 \<le> M" and A0: "0 \<le> A"
    using scan_fold [OF scan] fold_max_ge [of 0] by (simp_all add: M_def A_def)
  have y0: "y \<noteq> 0" using res by (auto simp: UnionSize_def scan int64_rem_def)
  then have "A \<noteq> 0" unfolding A_def by (simp only: signed_eq_0_iff not_False_eq_True)
  then have Apos: "0 < A" using A0 by simp
  define r :: int64 where "r = word_of_int (M mod A)"
  have rem: "int64_rem x y = Inr r"
    using y0 by (simp add: int64_rem_def r_def M_def [symmetric] A_def [symmetric]
        smod_nonneg [OF M0 Apos])
  have al: "align = y" using res rem by (auto simp: UnionSize_def scan split: if_splits)
  have dA: "d dvd A" using d1 by (simp add: al A_def)
  show ?thesis
  proof (cases "r = 0")
    case True
    have A63: "A < 2 ^ 63" using sint_bounds64(2) [of y] by (simp add: A_def)
    have "sint r = M mod A"
    proof -
      have "0 \<le> M mod A" "M mod A < A" using Apos by simp_all
      then show ?thesis unfolding r_def using A63 by (intro int64_sint_of_int) linarith+
    qed
    then have "M mod A = 0" using True by simp
    then have "A dvd M" by (simp add: mod_eq_0_iff_dvd)
    moreover have "sz = x" using res rem True by (auto simp: UnionSize_def scan)
    ultimately show ?thesis using dA by (auto simp: M_def)
  next
    case False
    then have "sz = x - r + y" using res rem by (auto simp: UnionSize_def scan)
    also have "\<dots> = word_of_int (M - M mod A + A)"
      by (simp add: r_def M_def A_def)
    finally have sz: "sz = word_of_int (M - M mod A + A)" .
    have "A dvd M - M mod A" by simp
    then have "A dvd M - M mod A + A" by simp
    then have "d dvd M - M mod A + A" using dA by (rule dvd_trans [rotated])
    then show ?thesis unfolding sz using d2 by (rule int64_wrap_dvd)
  qed
qed

lemma sdiv_exact:
  assumes "0 < (a::int)" and "a dvd k"
  shows "k sdiv a * a = k"
proof -
  have "a dvd \<bar>k\<bar>" using assms(2) by simp
  then have "\<bar>k\<bar> mod a = 0" by (rule dvd_imp_mod_0)
  then have "\<bar>k\<bar> mod \<bar>a\<bar> = 0" using assms(1) by simp
  then have "k smod a = 0" by (simp add: smod_int_alt_def)
  then show ?thesis using sdiv_mult_smod_eq [of k a] by (simp only: add_0_right)
qed

lemma int64_quo_exact:
  assumes a: "0 < sint (align :: int64)" and dv: "sint align dvd sint (sz :: int64)"
  shows "\<exists>n. int64_quo sz align = Inr n \<and> sint n * sint align = sint sz \<and> n * align = sz"
proof -
  define q where "q = sint sz sdiv sint align"
  have ex: "q * sint align = sint sz" unfolding q_def using a dv by (rule sdiv_exact)
  have lo: "- (2 ^ 63) \<le> q" and hi: "q < 2 ^ 63"
  proof -
    have b: "- (2 ^ 63) \<le> sint sz" "sint sz < 2 ^ 63" by (rule sint_bounds64)+
    have "1 \<le> sint align" using a by simp
    show "- (2 ^ 63) \<le> q"
    proof (cases "0 \<le> q")
      case True then show ?thesis by simp
    next
      case False
      then have "q * sint align \<le> q * 1" using \<open>1 \<le> sint align\<close>
        by (intro mult_left_mono_neg) simp_all
      then show ?thesis using ex b by simp
    qed
    show "q < 2 ^ 63"
    proof (cases "0 \<le> q")
      case True
      then have "q * 1 \<le> q * sint align" using \<open>1 \<le> sint align\<close>
        by (intro mult_left_mono) simp_all
      then show ?thesis using ex b by simp
    next
      case False then show ?thesis by simp
    qed
  qed
  have al0: "align \<noteq> 0" using a by auto
  define n :: int64 where "n = word_of_int q"
  have sn: "sint n = q" unfolding n_def using lo hi by (rule int64_sint_of_int)
  have "n * align = word_of_int (q * sint align)" by (simp add: n_def)
  then have "n * align = sz" by (simp add: ex)
  moreover have "int64_quo sz align = Inr n" using al0 by (simp add: int64_quo_def n_def q_def)
  ultimately show ?thesis using sn ex by simp
qed

lemma alignments_dom: "alignments a \<noteq> None \<longleftrightarrow> a = 1 \<or> a = 2 \<or> a = 4 \<or> a = 8"
  by (auto simp: alignments_def)

section \<open>The import loop\<close>

lemma GetImports_loop_append:
  "GetImports_loop st (xs @ ys) pkg acc =
     (case GetImports_loop st xs pkg acc of
        Inl e \<Rightarrow> Inl e
      | Inr acc' \<Rightarrow> GetImports_loop st ys pkg acc')"
  by (induction xs arbitrary: acc) (auto split: Type.splits option.splits)

lemma GetImports_loop_skip:
  "is_composite (typ' f) \<Longrightarrow>
     GetImports_loop st (f # fs) pkg acc = GetImports_loop st fs pkg acc"
  by (cases "typ' f") auto

lemma GetImports_loop_filter:
  "list_all has_owner fs \<Longrightarrow>
     GetImports_loop st fs pkg acc =
       Inr (acc @ map (\<lambda>f. quoted (owner_path st f)) (filter (is_external pkg) fs))"
proof (induction fs arbitrary: acc)
  case Nil
  then show ?case by simp
next
  case (Cons f fs)
  then show ?case
    by (cases "typ' f") (auto split: option.splits)
qed

section \<open>Where the element count is exact\<close>

text \<open>
  When the computed alignment is in the table or is a multiple of 8, the alignment
  used divides the size and \<open>size /= align\<close> leaves no remainder, even if the rounding
  in UnionSize wrapped around.
\<close>

lemma element_count_exact:
  assumes res: "UnionSize s lookup = Inr (sz, align)"
    and chk: "check_alignment align w = (w', align')"
    and ok: "alignments align \<noteq> None \<or> 8 dvd sint align"
  shows "align' = (if alignments align = None then 8 else align)
         \<and> (\<exists>n ty. storage_shape sz align' = Inr (n, ty)
                \<and> n * align' = sz \<and> sint n * sint align' = sint sz)"
proof -
  have used: "align' = (if alignments align = None then 8 else align)"
    using chk by (auto simp: check_alignment_def split: if_splits)
  have pos: "0 < sint align'" and dv: "sint align' dvd sint sz"
  proof -
    show "0 < sint align'"
      using used alignments_dom [of align] by (auto split: if_splits)
    show "sint align' dvd sint sz"
    proof (cases "alignments align = None")
      case True
      then have "8 dvd sint align" using ok by simp
      then have "8 dvd sint sz" using UnionSize_dvd [OF res, of 8] by simp
      then show ?thesis using used True by simp
    next
      case False
      then have "sint align dvd (2 ^ 64 :: int)"
        using alignments_dom [of align] by auto
      then have "sint align dvd sint sz" using UnionSize_dvd [OF res, of "sint align"] by simp
      then show ?thesis using used False by simp
    qed
  qed
  obtain n where "int64_quo sz align' = Inr n" "sint n * sint align' = sint sz" "n * align' = sz"
    using int64_quo_exact [OF pos dv] by blast
  then show ?thesis using used by (auto simp: storage_shape_def)
qed

section \<open>Properties\<close>

text \<open>
  C1, as amended. For a template with at least one field and positive alignments,
  whose rounded-up size fits in a signed 64-bit integer, UnionSize returns: an
  alignment equal to the largest \<open>Alignof\<close> over the fields; a size that is at least
  the largest \<open>Sizeof\<close> over the fields and a multiple of that alignment; namely the
  largest size (or 0, where the scan starts, if every size is negative) rounded up to
  the next multiple of the largest alignment.
\<close>

theorem UnionSize_layout:
  assumes ne: "s \<noteq> []"
    and pos: "positive_alignments lookup s"
    and fits: "spec_round_up (max 0 (max_sizeof lookup s)) (max_alignof lookup s) < 2 ^ 63"
  shows "\<exists>sz align. UnionSize s lookup = Inr (sz, align)
          \<and> sint align = max_alignof lookup s
          \<and> max_sizeof lookup s \<le> sint sz
          \<and> sint align dvd sint sz
          \<and> sint sz = spec_round_up (max 0 (max_sizeof lookup s)) (max_alignof lookup s)"
proof -
  define M where "M = max 0 (max_sizeof lookup s)"
  define A where "A = max_alignof lookup s"
  obtain x y where scan: "UnionSize_scan lookup s 0 0 = (x, y)"
    by (cases "UnionSize_scan lookup s 0 0")
  have Apos: "0 < A" unfolding A_def by (rule max_alignof_pos [OF ne pos])
  have sx: "sint x = M" and sy: "sint y = A"
    using scan_fold [OF scan] ne Apos
    by (simp_all add: fold_max_Max M_def A_def max_sizeof_def max_alignof_def)
  have M0: "0 \<le> M" and MM: "max_sizeof lookup s \<le> M" by (simp_all add: M_def)
  have y0: "y \<noteq> 0" using sy Apos by auto
  have A63: "A < 2 ^ 63" using sint_bounds64(2) [of y] sy by simp
  have rng: "0 \<le> M mod A" "M mod A < A" using Apos by simp_all
  define r :: int64 where "r = word_of_int (M mod A)"
  have sr: "sint r = M mod A"
    unfolding r_def using rng A63 by (intro int64_sint_of_int) linarith+
  have rem: "int64_rem x y = Inr r"
    using y0 by (simp add: int64_rem_def r_def sx sy smod_nonneg [OF M0 Apos])
  have r0: "r = 0 \<longleftrightarrow> M mod A = 0"
  proof
    assume "r = 0" then show "M mod A = 0" using sr by simp
  next
    assume "M mod A = 0" then show "r = 0" by (simp add: r_def)
  qed
  have le: "M \<le> spec_round_up M A" and dv: "A dvd spec_round_up M A"
    using round_up_props [OF M0 Apos] by simp_all
  show ?thesis
  proof (cases "M mod A = 0")
    case True
    then have "UnionSize s lookup = Inr (x, y)"
      using rem r0 by (simp add: UnionSize_def scan)
    moreover have "spec_round_up M A = M" using True by (simp add: spec_round_up_def)
    ultimately show ?thesis
      using sx sy le dv MM by (simp add: M_def [symmetric] A_def [symmetric])
  next
    case False
    then have res: "UnionSize s lookup = Inr (x - r + y, y)"
      using rem r0 by (simp add: UnionSize_def scan)
    have ru: "spec_round_up M A = M - M mod A + A"
      using False by (simp add: spec_round_up_def)
    have "x - r + y = word_of_int (sint x - M mod A + sint y)"
      by (simp add: r_def)
    then have w: "x - r + y = word_of_int (spec_round_up M A)"
      by (simp add: sx sy ru)
    have "sint (x - r + y) = spec_round_up M A"
      unfolding w using fits le M0
      by (intro int64_sint_of_int) (simp_all add: M_def [symmetric] A_def [symmetric])
    then show ?thesis
      using res sy le dv MM by (simp add: M_def [symmetric] A_def [symmetric])
  qed
qed

theorem UnionSize_layout_witness:
  "example_template \<noteq> [] \<and> positive_alignments example_sizes example_template
   \<and> spec_round_up (max 0 (max_sizeof example_sizes example_template))
         (max_alignof example_sizes example_template) < 2 ^ 63
   \<and> (\<exists>sz align. UnionSize example_template example_sizes = Inr (sz, align)
          \<and> sint align = max_alignof example_sizes example_template
          \<and> max_sizeof example_sizes example_template \<le> sint sz
          \<and> sint align dvd sint sz
          \<and> sint sz = spec_round_up (max 0 (max_sizeof example_sizes example_template))
                (max_alignof example_sizes example_template))"
proof -
  have h1: "example_template \<noteq> []" by (simp add: example_template_def)
  have h2: "positive_alignments example_sizes example_template"
    by (simp add: positive_alignments_def example_template_def example_sizes_def word_sless_alt)
  have h3: "spec_round_up (max 0 (max_sizeof example_sizes example_template))
         (max_alignof example_sizes example_template) < 2 ^ 63"
    by (simp add: spec_round_up_def max_sizeof_def max_alignof_def
        example_template_def example_sizes_def)
  show ?thesis using UnionSize_layout [OF h1 h2 h3] h1 h2 h3 by blast
qed

text \<open>
  Without the bound the claim fails: with a field of 2^63 - 1 bytes and a field of
  alignment 2, the rounding wraps around to -2^63, which is below the largest size.
\<close>

theorem UnionSize_overflow_counterexample:
  "overflow_template \<noteq> [] \<and> positive_alignments overflow_sizes overflow_template
   \<and> UnionSize overflow_template overflow_sizes = Inr (0x8000000000000000, 2)
   \<and> sint (0x8000000000000000 :: int64) < max_sizeof overflow_sizes overflow_template"
  by (simp add: overflow_template_def overflow_sizes_def positive_alignments_def
      UnionSize_def int64_rem_def max_sizeof_def smod_int_alt_def word_sless_alt)

text \<open>
  C2, as amended. GetImports returns, in field order, one quoted import path for each
  field whose type is a named type of a package other than the home package: a
  namespace that k fields refer to appears k times. A field whose type is a named type
  of the home package, or is not a named type, contributes nothing, so the result is
  empty when no field type is external. (Stated for field lists in which every named
  type has a package.)
\<close>

theorem GetImports_one_entry_per_external_field:
  "list_all has_owner fs \<Longrightarrow>
     GetImports st fs pkg =
       Inr (map (\<lambda>f. quoted (owner_path st f)) (filter (is_external pkg) fs))"
  by (simp add: GetImports_def GetImports_loop_filter)

theorem GetImports_one_entry_per_external_field_witness:
  "list_all has_owner mixed_fields \<and>
   GetImports example_store mixed_fields (Some 0) = Inr [quoted ''pkg/x'', quoted ''pkg/x'']"
proof -
  have h: "list_all has_owner mixed_fields" by (simp add: mixed_fields_def)
  show ?thesis
    using GetImports_one_entry_per_external_field [OF h, of example_store "Some 0"] h
    by (simp add: mixed_fields_def example_store_def)
qed

text \<open>Two fields with types of the same external package give that package twice.\<close>

theorem GetImports_duplicates_counterexample:
  "GetImports example_store two_from_x (Some 0) = Inr [quoted ''pkg/x'', quoted ''pkg/x'']
   \<and> \<not> distinct [quoted ''pkg/x'', quoted ''pkg/x'']"
  by (simp add: GetImports_def two_from_x_def example_store_def)


text \<open>
  C4: a run whose computed alignment is 16. It substitutes 8, goes on and exits with
  code 0, and prints one warning; the warning is written to the standard output,
  before the generated text, and nothing is written to the standard error.
\<close>

theorem warning_goes_to_stdout:
  "main wide_env example_cmdline empty_world =
     (\<lparr>stdout = warning_16 @ wide_text, stderr = [], files = Map.empty\<rparr>, Exit 0)"
  by (simp add: run_defs sample_defs wide_env_def wide_sizes_def warning_16_def wide_text_def)

text \<open>
  C5: for a template with zero fields both maxima stay 0, and the remainder
  \<^verbatim>\<open>maxsz%maxalign\<close> divides by zero: UnionSize panics instead of returning (0, 0).
\<close>

theorem UnionSize_zero_fields_panics:
  "UnionSize [] lookup = Inl DivideByZero"
  by (simp add: UnionSize_def int64_rem_def)

text \<open>
  C6: the template with \<open>i1\<close> of type uint32 and \<open>i2\<close> of type uint16 has size 4 and
  alignment 4, and its storage is one element of type uint32 (4 bytes). After writing
  0xdeadbeef through \<open>i1\<close> and then 0xface through \<open>i2\<close>, \<open>i1\<close> reads 0xdeadface and
  \<open>i2\<close> reads 0xface.
\<close>

theorem example_union_overlay:
  "UnionSize example_template example_sizes = Inr (4, 4)
   \<and> check_alignment 4 empty_world = (empty_world, 4)
   \<and> storage_shape 4 4 = Inr (1, ''uint32'')
   \<and> length (new_storage 1 4) = 4
   \<and> (field_get (field_put (0xface :: 16 word)
          (field_put (0xdeadbeef :: 32 word) (new_storage 1 4))) :: 32 word) = 0xdeadface
   \<and> (field_get (field_put (0xface :: 16 word)
          (field_put (0xdeadbeef :: 32 word) (new_storage 1 4))) :: 16 word) = 0xface"
  by (simp add: run_defs sample_defs field_put_def field_get_def new_storage_def
      le_bytes_def upt_rec)

text \<open>
  C7: when the formatter rejects the generated text, main prints the unformatted text
  to the standard output, reports the failure on the standard error and exits with
  code 1.
\<close>

theorem format_failure:
  assumes gen: "generate env c w = Inr (w', flagFile, buf)"
    and rej: "format_Source env buf = Inl err"
  shows "main env c w =
           (w'\<lparr>stdout := stdout w' @ buf,
               stderr := stderr w' @ ''Error with union generation:'' @ nl
                         @ ''format: '' @ err @ nl\<rparr>,
            Exit 1)
         \<and> exit_code (snd (main env c w)) \<noteq> 0"
  using gen rej by (simp add: main_def emit_def Print_def Eprint_def)

theorem format_failure_witness:
  "generate rejecting_env example_cmdline empty_world = Inr (empty_world, [], example_text)
   \<and> format_Source rejecting_env example_text = Inl ''1:1: expected declaration''
   \<and> main rejecting_env example_cmdline empty_world =
           (empty_world\<lparr>stdout := stdout empty_world @ example_text,
               stderr := stderr empty_world @ ''Error with union generation:'' @ nl
                         @ ''format: '' @ ''1:1: expected declaration'' @ nl\<rparr>,
            Exit 1)
   \<and> exit_code (snd (main rejecting_env example_cmdline empty_world)) \<noteq> 0"
proof -
  have h1: "generate rejecting_env example_cmdline empty_world
              = Inr (empty_world, [], example_text)"
    by (simp add: run_defs sample_defs rejecting_env_def example_text_def)
  have h2: "format_Source rejecting_env example_text = Inl ''1:1: expected declaration''"
    by (simp add: sample_defs rejecting_env_def)
  show ?thesis using format_failure [OF h1 h2] h1 h2 by blast
qed

text \<open>
  C8: a run with an output file that cannot be written. The error of the write is
  dropped: no file is written, nothing is printed, and main exits with code 0.
\<close>

theorem write_error_exits_zero:
  "WriteFile_error readonly_env ''template_union.go'' = Some ''permission denied''
   \<and> main readonly_env output_cmdline empty_world = (empty_world, Exit 0)
   \<and> exit_code (snd (main readonly_env output_cmdline empty_world)) = 0"
  by (simp add: run_defs sample_defs readonly_env_def output_cmdline_def)

text \<open>
  C9: in a run that reaches the output, when no union type name is given the union is
  named by the template name followed by \<open>Union\<close>; the package name is \<open>main\<close> when
  none is given; and the formatted text goes to the standard output when no output
  file is given.
\<close>

theorem defaults:
  assumes "find_template env (args c) w = Inr (w1, pkg, strct)"
    and "UnionSize strct (TypesSizes pkg) = Inr (sz, align)"
    and "check_alignment align w1 = (w2, align')"
    and "GetImports (store env) (UnionFields strct) (Types pkg) = Inr imports"
    and "opt_otype c = None"
    and "StringUnion (templates env) (TypeString env) (store env)
           (args c ! 0 @ ''Union'') sz align' (UnionFields strct) (Types pkg) = Inr su"
    and "format_Source env
           (header (templates env)
            @ packageTemplate (templates env) (case opt_pkg c of None \<Rightarrow> ''main'' | Some p \<Rightarrow> p)
            @ importTemplate (templates env) (Join imports nl) @ su) = Inr out"
  shows "main env c w =
           (case opt_output c of
              None \<Rightarrow> (w2\<lparr>stdout := stdout w2 @ out\<rparr>, Exit 0)
            | Some path \<Rightarrow>
                if path = [] then (w2\<lparr>stdout := stdout w2 @ out\<rparr>, Exit 0)
                else (fst (ioutil_WriteFile env path out w2), Exit 0))"
  using assms
  by (simp add: main_def generate_def emit_def flag_String_def Print_def split: option.splits)

theorem defaults_witness:
  "find_template example_env (args example_cmdline) empty_world
     = Inr (empty_world, example_package, example_template)
   \<and> UnionSize example_template (TypesSizes example_package) = Inr (4, 4)
   \<and> check_alignment 4 empty_world = (empty_world, 4)
   \<and> GetImports (store example_env) (UnionFields example_template) (Types example_package)
       = Inr []
   \<and> opt_otype example_cmdline = None
   \<and> opt_pkg example_cmdline = None
   \<and> opt_output example_cmdline = None
   \<and> main example_env example_cmdline empty_world
       = (empty_world\<lparr>stdout := stdout empty_world @ example_text\<rparr>, Exit 0)"
proof -
  have h1: "find_template example_env (args example_cmdline) empty_world
     = Inr (empty_world, example_package, example_template)"
    by (simp add: run_defs sample_defs)
  have h2: "UnionSize example_template (TypesSizes example_package) = Inr (4, 4)"
    by (simp add: run_defs sample_defs)
  have h3: "check_alignment 4 empty_world = (empty_world, 4)"
    by (simp add: run_defs sample_defs)
  have h4: "GetImports (store example_env) (UnionFields example_template)
              (Types example_package) = Inr []"
    by (simp add: run_defs sample_defs)
  have h5: "opt_otype example_cmdline = None" by (simp add: example_cmdline_def)
  have h6: "StringUnion (templates example_env) (TypeString example_env) (store example_env)
           (args example_cmdline ! 0 @ ''Union'') 4 4 (UnionFields example_template)
           (Types example_package)
        = Inr (''type TemplateUnion [1]uint32'' @ nl
               @ ''func (u *TemplateUnion) i1() uint32'' @ nl
               @ ''func (u *TemplateUnion) i2() uint16'' @ nl)"
    by (simp add: run_defs sample_defs)
  have h7: "format_Source example_env
           (header (templates example_env)
            @ packageTemplate (templates example_env)
                (case opt_pkg example_cmdline of None \<Rightarrow> ''main'' | Some p \<Rightarrow> p)
            @ importTemplate (templates example_env) (Join [] nl)
            @ (''type TemplateUnion [1]uint32'' @ nl
               @ ''func (u *TemplateUnion) i1() uint32'' @ nl
               @ ''func (u *TemplateUnion) i2() uint16'' @ nl)) = Inr example_text"
    by (simp add: sample_defs example_text_def)
  have h8: "opt_pkg example_cmdline = None" "opt_output example_cmdline = None"
    by (simp_all add: example_cmdline_def)
  show ?thesis
    using defaults [OF h1 h2 h3 h4 h5 h6 h7] h1 h2 h3 h4 h5 h8 by simp
qed

text \<open>
  C10: a field whose type is a pointer, slice, array, map or channel type is skipped
  by GetImports, whatever type it is built from: removing the field from the list
  does not change the result.
\<close>

theorem GetImports_skips_composite:
  "is_composite (typ' f) \<Longrightarrow>
     GetImports st (xs @ f # ys) pkg = GetImports st (xs @ ys) pkg"
  by (simp add: GetImports_def GetImports_loop_append GetImports_loop_skip
      del: GetImports_loop.simps split: sum.splits)

theorem GetImports_skips_composite_witness:
  "is_composite (typ' \<lparr>name = ''p'', typ' = Pointer (Named ''A'' (Some 1))\<rparr>)
   \<and> GetImports example_store
         ([\<lparr>name = ''l'', typ' = Named ''Local'' (Some 0)\<rparr>]
          @ \<lparr>name = ''p'', typ' = Pointer (Named ''A'' (Some 1))\<rparr>
          # [\<lparr>name = ''n'', typ' = Basic ''int''\<rparr>]) (Some 0)
       = GetImports example_store
         ([\<lparr>name = ''l'', typ' = Named ''Local'' (Some 0)\<rparr>]
          @ [\<lparr>name = ''n'', typ' = Basic ''int''\<rparr>]) (Some 0)
   \<and> GetImports example_store
         ([\<lparr>name = ''l'', typ' = Named ''Local'' (Some 0)\<rparr>]
          @ [\<lparr>name = ''n'', typ' = Basic ''int''\<rparr>]) (Some 0) = Inr []"
proof -
  have h: "is_composite (typ' \<lparr>name = ''p'', typ' = Pointer (Named ''A'' (Some 1))\<rparr>)"
    by simp
  have e: "GetImports example_store
         ([\<lparr>name = ''l'', typ' = Named ''Local'' (Some 0)\<rparr>]
          @ [\<lparr>name = ''n'', typ' = Basic ''int''\<rparr>]) (Some 0) = Inr []"
    by (simp add: GetImports_def)
  show ?thesis
    using GetImports_skips_composite [OF h, of example_store
        "[\<lparr>name = ''l'', typ' = Named ''Local'' (Some 0)\<rparr>]"
        "[\<lparr>name = ''n'', typ' = Basic ''int''\<rparr>]" "Some 0"] h e
    by blast
qed

end
